theory Spec2Isabelle
  imports Main "HOL-Library.Word"
begin

unbundle bit_operations_syntax

section \<open>Data model of segvcatcher.c\<close>

text \<open>
  The library lives inside a host process. The model keeps the part of the process the
  library reads or writes: the table of signal dispositions, the three file-static
  variables of segvcatcher.c, what has been written to file descriptor 2, and whether
  the process is still running.

  A C \<open>int\<close> (signal numbers, the argument of \<open>_exit\<close>, the frame count) is a 32-bit
  word, read as two's complement by \<open>sint\<close>. A \<open>time_t\<close> is a 64-bit word, read
  the same way: sums and differences wrap around, and \<open><s\<close> is the signed comparison.
  A return address (\<open>void *\<close>) is a natural number.
\<close>

type_synonym c_int = "32 word"
type_synonym signo = c_int
type_synonym time_t = "64 word"
type_synonym addr = nat
type_synonym pid = c_int

text \<open>The three macros of segvcatcher.c, and the two signal numbers of Linux's signal.h
  (\<open>SIGUNUSED\<close> is the old name of signal 31, \<open>SIGSYS\<close>).\<close>

definition DELAY :: time_t where
  "DELAY = 3"

definition SIGSEGV :: signo where
  "SIGSEGV = 11"

definition SIGUNUSED :: signo where
  "SIGUNUSED = 31"

definition IPC_SIG :: signo where
  "IPC_SIG = SIGUNUSED"

definition TRACEBUFLEN :: nat where
  "TRACEBUFLEN = 64"

text \<open>
  A value of type \<open>void (*)(int)\<close>: one of the two sentinels of signal.h, one of the
  two static handlers of this library, or a function of the host, named by a number.
\<close>

datatype sighandler = SIG_DFL | SIG_IGN | Lib_handle_segv | Lib_set_segv | Host nat

datatype sa_flag = SA_RESTART | SA_RESETHAND

text \<open>\<open>struct sigaction\<close>, with the flag word as the set of flags that are on.\<close>

record sigaction =
  sa_handler :: sighandler
  sa_flags :: "sa_flag set"
  sa_mask :: "signo set"

text \<open>One \<open>write\<close> to descriptor 2: literal text, or the line that
  \<open>backtrace_symbols_fd\<close> prints for one return address.\<close>

datatype out = Text string | Frame addr

datatype status = Running | Exited c_int | Killed signo

record proc =
  disp :: "signo \<Rightarrow> sigaction"
  original_segv_handler :: sighandler
  trace :: "addr list"
  traces :: c_int
  stderr :: "out list"
  status :: status

text \<open>How a call ends: it returns to its caller, or it does not (the process has
  terminated, or control has left for good).\<close>

datatype 'a outcome = Return 'a | NoReturn 'a

fun state_of :: "'a outcome \<Rightarrow> 'a" where
  "state_of (Return s) = s"
| "state_of (NoReturn s) = s"

fun returns :: "'a outcome \<Rightarrow> bool" where
  "returns (Return s) = True"
| "returns (NoReturn s) = False"

text \<open>What calling through a function pointer with an \<open>int\<close> argument does to the
  process. It is a parameter of the model: the host's code is not part of the library.\<close>

type_synonym code = "sighandler \<Rightarrow> c_int \<Rightarrow> proc \<Rightarrow> proc outcome"

section \<open>The primitives the library calls\<close>

definition newline :: string where
  "newline = [CHR 0x0A]"

text \<open>\<open>WRITE(msg)\<close> is one \<open>write(STDERR_FILENO, msg, sizeof(msg) - 1)\<close>; its result
  is discarded by the source.\<close>

definition WRITE :: "string \<Rightarrow> proc \<Rightarrow> proc" where
  "WRITE msg s = s\<lparr>stderr := stderr s @ [Text msg]\<rparr>"

text \<open>
  \<open>backtrace(buffer, size)\<close> of execinfo.h stores the innermost return addresses of
  the call stack at the start of the buffer, at most \<open>size\<close> of them, and returns how
  many it stored. The call stack (innermost frame first) is an input. The buffer keeps
  its other entries; a store past its end would show as a longer buffer.
\<close>

definition backtrace :: "addr list \<Rightarrow> addr list \<Rightarrow> nat \<Rightarrow> addr list \<times> c_int" where
  "backtrace stack buffer sz =
     (let n = min (length stack) sz
      in (take n stack @ drop n buffer, of_nat n))"

text \<open>\<open>backtrace_symbols_fd(buffer, size, fd)\<close> writes one line for each of the first
  \<open>size\<close> entries of the buffer.\<close>

definition backtrace_symbols_fd :: "addr list \<Rightarrow> c_int \<Rightarrow> proc \<Rightarrow> proc" where
  "backtrace_symbols_fd buffer sz s =
     s\<lparr>stderr := stderr s @ map Frame (take (nat (sint sz)) buffer)\<rparr>"

text \<open>\<open>_exit(status)\<close> ends the process and does not return.\<close>

definition c_exit :: "c_int \<Rightarrow> proc \<Rightarrow> proc outcome" where
  "c_exit st s = NoReturn (s\<lparr>status := Exited st\<rparr>)"

text \<open>\<open>sigaction(sig, &new, &old)\<close>: replaces the disposition of \<open>sig\<close> and hands back
  the one it replaced. Both calls in the source name a signal that can be caught, for
  which the call cannot fail.\<close>

definition sigaction :: "signo \<Rightarrow> sigaction \<Rightarrow> proc \<Rightarrow> sigaction \<times> proc" where
  "sigaction sig new s = (disp s sig, s\<lparr>disp := (disp s)(sig := new)\<rparr>)"

section \<open>The library\<close>

subsection \<open>handle\_segv, the SIGSEGV handler\<close>

definition handle_segv :: "code \<Rightarrow> c_int \<Rightarrow> addr list \<Rightarrow> proc \<Rightarrow> proc outcome" where
  "handle_segv call x stack s =
     (let s1 = WRITE (''SIGSEGV received. Backtrace:'' @ newline) s;
          (buf, n) = backtrace stack (trace s1) TRACEBUFLEN;
          s2 = s1\<lparr>trace := buf, traces := n\<rparr>;
          s3 = backtrace_symbols_fd (trace s2) (traces s2) s2;
          s4 = WRITE ''End of backtrace. '' s3
      in if original_segv_handler s4 \<noteq> SIG_IGN \<and> original_segv_handler s4 \<noteq> SIG_DFL
         then call (original_segv_handler s4) x
                (WRITE (''Calling original SIGSEGV handler.'' @ newline) s4)
         else c_exit (push_bit 7 1 OR x)
                (WRITE (''No other SIGSEGV handler available. Quitting.'' @ newline) s4))"

subsection \<open>set\_segv, the handler of the handshake signal\<close>

definition set_segv :: "c_int \<Rightarrow> proc \<Rightarrow> proc" where
  "set_segv x s =
     (let new = \<lparr>sa_handler = Lib_handle_segv, sa_flags = {}, sa_mask = {}\<rparr>;
          (orig, s1) = sigaction SIGSEGV new s
      in s1\<lparr>original_segv_handler := sa_handler orig\<rparr>)"

subsection \<open>child, the watchdog\<close>

text \<open>
  The child's system calls, in order. \<open>Time t\<close> is a call of \<open>time(NULL)\<close> that
  returned \<open>t\<close>; \<open>Sleep n\<close> is \<open>sleep(n)\<close>, whose argument is an \<open>unsigned int\<close>.
  \<open>Kill p sig\<close> is \<open>kill(p, sig)\<close>; \<open>ppid\<close> is what \<open>getppid()\<close> returns.
  The readings of the clock are an input, a list: \<open>sleep\<close> may return at any moment,
  so nothing ties the next reading to the length asked for. A run that uses up the list
  without leaving the loop has no result.
\<close>

datatype syscall = Time time_t | Sleep "32 word" | Kill pid signo

fun child_loop :: "time_t \<Rightarrow> time_t list \<Rightarrow> syscall list option" where
  "child_loop start_time [] = None"
| "child_loop start_time (t # clock) =
     (let zzz = start_time + DELAY - t;
          calls = Time t # (if 0 <s zzz then [Sleep (ucast zzz)] else [])
      in if t <s start_time + DELAY
         then map_option (\<lambda>rest. calls @ rest) (child_loop start_time clock)
         else Some calls)"

definition child :: "pid \<Rightarrow> time_t list \<Rightarrow> syscall list option" where
  "child ppid clock =
     (case clock of
        [] \<Rightarrow> None
      | start_time # later \<Rightarrow>
          map_option (\<lambda>calls. Time start_time # calls @ [Kill ppid IPC_SIG])
            (child_loop start_time later))"

text \<open>
  \<open>time(NULL)\<close> counts whole seconds since the Epoch. \<open>time_at ms\<close> is what it
  returns at the instant \<open>ms\<close> milliseconds after the Epoch.
\<close>

definition time_at :: "int \<Rightarrow> time_t" where
  "time_at ms = of_int (ms div 1000)"

subsection \<open>setup, the constructor\<close>

text \<open>
  \<open>fork_ret\<close> is what \<open>fork()\<close> returned: 0 in the child, the child's pid in the
  parent, -1 when no child could be made. The result pairs the system calls of the
  watchdog (none outside the child) with how \<open>setup\<close> ends.
\<close>

definition setup_lib :: "c_int \<Rightarrow> pid \<Rightarrow> time_t list \<Rightarrow> proc \<Rightarrow> (syscall list \<times> proc outcome) option" where
  "setup_lib fork_ret ppid clock s =
     (let a = \<lparr>sa_handler = Lib_set_segv, sa_flags = {SA_RESTART, SA_RESETHAND}, sa_mask = {}\<rparr>
      in if fork_ret = 0
         then map_option (\<lambda>calls. (calls, c_exit 0 s)) (child ppid clock)
         else Some ([], Return (snd (sigaction IPC_SIG a s))))"

section \<open>The kernel's side: delivering signals\<close>

text \<open>
  Signal delivery as POSIX and signal(7) describe it. A signal whose disposition is
  \<open>SIG_IGN\<close> is dropped. Under \<open>SIG_DFL\<close> the default action is taken: for every
  signal but eight it ends the process (stopping and continuing are not
  modelled). Otherwise the handler runs, and if the disposition was installed with
  \<open>SA_RESETHAND\<close> it is reset to \<open>SIG_DFL\<close> on entry to the handler. Handlers run
  one at a time, to their end, and a process that has ended takes no more signals.
  The signal numbers in \<open>default_terminates\<close> are those of SIGCHLD, SIGCONT, SIGSTOP,
  SIGTSTP, SIGTTIN, SIGTTOU, SIGURG and SIGWINCH on Linux.
\<close>

definition default_terminates :: "signo \<Rightarrow> bool" where
  "default_terminates sig \<longleftrightarrow> sig \<notin> {17, 18, 19, 20, 21, 22, 23, 28}"

definition invoke :: "code \<Rightarrow> sighandler \<Rightarrow> c_int \<Rightarrow> addr list \<Rightarrow> proc \<Rightarrow> proc outcome" where
  "invoke call h sig stack s =
     (case h of
        Lib_handle_segv \<Rightarrow> handle_segv call sig stack s
      | Lib_set_segv \<Rightarrow> Return (set_segv sig s)
      | _ \<Rightarrow> call h sig s)"

definition deliver :: "code \<Rightarrow> signo \<Rightarrow> addr list \<Rightarrow> proc \<Rightarrow> proc" where
  "deliver call sig stack s =
     (if status s \<noteq> Running then s
      else let a = disp s sig
           in if sa_handler a = SIG_IGN then s
              else if sa_handler a = SIG_DFL
                then (if default_terminates sig then s\<lparr>status := Killed sig\<rparr> else s)
              else state_of (invoke call (sa_handler a) sig stack
                     (if SA_RESETHAND \<in> sa_flags a
                      then s\<lparr>disp := (disp s)(sig := a\<lparr>sa_handler := SIG_DFL\<rparr>)\<rparr>
                      else s)))"

text \<open>What happens to the process over its life: a signal is delivered (with the call
  stack of that moment), or the host runs some code of its own.\<close>

datatype event = Signal signo "addr list" | HostRuns sighandler c_int

fun step :: "code \<Rightarrow> event \<Rightarrow> proc \<Rightarrow> proc" where
  "step call (Signal sig stack) s = deliver call sig stack s"
| "step call (HostRuns f x) s = (if status s = Running then state_of (call f x s) else s)"

fun run :: "code \<Rightarrow> event list \<Rightarrow> proc \<Rightarrow> proc" where
  "run call [] s = s"
| "run call (e # es) s = run call es (step call e s)"

text \<open>The handler the kernel starts for an event, if any, and the handlers started
  along a run, in order.\<close>

fun started :: "event \<Rightarrow> proc \<Rightarrow> sighandler list" where
  "started (Signal sig stack) s =
     (if status s = Running \<and> sa_handler (disp s sig) \<noteq> SIG_IGN
         \<and> sa_handler (disp s sig) \<noteq> SIG_DFL
      then [sa_handler (disp s sig)] else [])"
| "started (HostRuns f x) s = []"

fun handlers_run :: "code \<Rightarrow> event list \<Rightarrow> proc \<Rightarrow> sighandler list" where
  "handlers_run call [] s = []"
| "handlers_run call (e # es) s = started e s @ handlers_run call es (step call e s)"

text \<open>A process as \<open>execve\<close> leaves it: every disposition default, the static
  variables zero (the null function pointer is \<open>SIG_DFL\<close>), nothing written.\<close>

definition fresh_proc :: proc where
  "fresh_proc =
     \<lparr>disp = (\<lambda>sig. \<lparr>sa_handler = SIG_DFL, sa_flags = {}, sa_mask = {}\<rparr>),
      original_segv_handler = SIG_DFL,
      trace = replicate TRACEBUFLEN 0,
      traces = 0,
      stderr = [],
      status = Running\<rparr>"

text \<open>Two hosts to run the model on: one whose functions return at once, and one whose
  functions end the process with \<open>exit(0)\<close>, as the handler of testsegvcatcher.c does.
  \<open>hosted_proc\<close> is a process whose host has installed function 0 of its own for
  SIGSEGV, the way \<open>main\<close> of testsegvcatcher.c does.\<close>

definition idle_host :: code where
  "idle_host f x s = Return s"

definition quitting_host :: code where
  "quitting_host f x s = c_exit 0 s"

text \<open>A third host, whose functions install function 0 as the SIGSEGV handler again,
  as a handler written for \<open>signal()\<close> does, and return.\<close>

definition reinstalling_host :: code where
  "reinstalling_host f x s =
     Return (snd (sigaction SIGSEGV \<lparr>sa_handler = Host 0, sa_flags = {}, sa_mask = {}\<rparr> s))"

definition hosted_proc :: proc where
  "hosted_proc =
     fresh_proc\<lparr>disp := (disp fresh_proc)
       (SIGSEGV := \<lparr>sa_handler = Host 0, sa_flags = {}, sa_mask = {}\<rparr>)\<rparr>"

text \<open>The same process once the handshake signal has run \<open>set_segv\<close> in it.\<close>

definition armed_proc :: proc where
  "armed_proc = set_segv IPC_SIG hosted_proc"


definition unwatched_proc :: proc where
  "unwatched_proc =
     (case setup_lib (- 1) 1 [] fresh_proc of Some (calls, Return s) \<Rightarrow> s | _ \<Rightarrow> fresh_proc)"


section \<open>What the host cannot do\<close>

text \<open>
  \<open>original_segv_handler\<close>, \<open>handle_segv\<close> and \<open>set_segv\<close> are \<open>static\<close>: code
  outside segvcatcher.c cannot name them. \<open>untouched s s'\<close> says that a piece of code
  that took the process from \<open>s\<close> to \<open>s'\<close> kept to that: the saved handler is the
  same, and every disposition that names one of the library's two handlers in \<open>s'\<close>
  stood like that in \<open>s\<close>. A host keeps clear of the library when all of its code
  does.
\<close>

definition untouched :: "proc \<Rightarrow> proc \<Rightarrow> bool" where
  "untouched s s' \<longleftrightarrow>
     original_segv_handler s' = original_segv_handler s
     \<and> (\<forall>sig. sa_handler (disp s' sig) = Lib_set_segv
              \<or> sa_handler (disp s' sig) = Lib_handle_segv
           \<longrightarrow> disp s' sig = disp s sig)"

definition host_keeps_clear :: "code \<Rightarrow> bool" where
  "host_keeps_clear call \<longleftrightarrow> (\<forall>f x s. untouched s (state_of (call f x s)))"

section \<open>Facts about words\<close>

lemma frames_fit: "nat (sint (of_nat (min k TRACEBUFLEN) :: c_int)) = min k TRACEBUFLEN"
proof -
  have "min k TRACEBUFLEN < 2 ^ 31"
    by (simp add: TRACEBUFLEN_def min_def)
  then show ?thesis
    by (simp add: signed_of_nat signed_take_bit_int_eq_self)
qed

lemma high_bit_disjoint: "(2 ^ n :: c_int) AND take_bit n x = 0"
  by (rule bit_eqI) (auto simp add: bit_and_iff bit_exp_iff bit_take_bit_iff)

lemma low_bits_keep:
  "take_bit (Suc n) ((2 ^ n :: c_int) OR take_bit n x) = 2 ^ n OR take_bit n x"
  by (rule bit_eqI) (auto simp add: bit_or_iff bit_exp_iff bit_take_bit_iff)

lemma small_signal:
  fixes x :: c_int
  assumes "0 \<le> sint x" "sint x < 128"
  shows "take_bit 7 x = x"
proof -
  have "take_bit 7 (sint x) = sint x"
    using assms by (simp add: take_bit_int_eq_self)
  then have "word_of_int (take_bit 7 (sint x)) = (word_of_int (sint x) :: c_int)"
    by simp
  then show ?thesis
    by (simp add: of_int_take_bit)
qed

lemma or_is_plus_128:
  fixes x :: c_int
  assumes "0 \<le> sint x" "sint x < 128"
  shows "push_bit 7 1 OR x = 128 + x"
proof -
  have t: "take_bit 7 x = x"
    using assms by (rule small_signal)
  have "(2 ^ 7 :: c_int) AND x = 0"
    using high_bit_disjoint [of 7 x] by (simp only: t)
  then have "2 ^ 7 + x = 2 ^ 7 OR x"
    by (rule disjunctive_add_eq_or)
  then show ?thesis by simp
qed

lemma sint_plus_128:
  fixes x :: c_int
  assumes "0 \<le> sint x" "sint x < 128"
  shows "sint (128 + x) = 128 + sint x"
proof -
  define k where "k = sint x"
  have x: "x = word_of_int k"
    by (simp add: k_def)
  have "(128 :: c_int) + word_of_int k = word_of_int (128 + k)"
    by simp
  moreover have "sint (word_of_int (128 + k) :: c_int) = 128 + k"
    using assms unfolding k_def [symmetric]
    by (simp only: signed_of_int) (simp add: signed_take_bit_int_eq_self)
  ultimately show ?thesis
    using x k_def by metis
qed

lemma status_fits_byte:
  fixes x :: c_int
  assumes "0 \<le> sint x" "sint x < 128"
  shows "(push_bit 7 1 OR x) AND 255 = push_bit 7 1 OR x"
proof -
  have t: "take_bit 7 x = x"
    using assms by (rule small_signal)
  have "take_bit 8 ((2 ^ 7 :: c_int) OR x) = 2 ^ 7 OR x"
    using low_bits_keep [of 7 x] by (simp only: t) simp
  then have "((2 ^ 7 :: c_int) OR x) AND mask 8 = 2 ^ 7 OR x"
    by (simp only: take_bit_eq_mask)
  then show ?thesis by (simp add: mask_eq_exp_minus_1)
qed

section \<open>The fault handler, step by step\<close>

text \<open>The process at the moment \<open>handle_segv\<close> looks at the saved handler: the
  notice, the frames and the closing notice are written, the buffer holds the frames.\<close>

lemma handle_segv_unfold:
  "handle_segv call x stack s =
     (let n = min (length stack) TRACEBUFLEN;
          s4 = s\<lparr>trace := take n stack @ drop n (trace s), traces := of_nat n,
                 stderr := stderr s @ Text (''SIGSEGV received. Backtrace:'' @ newline)
                   # map Frame (take n stack) @ [Text ''End of backtrace. '']\<rparr>
      in if original_segv_handler s \<noteq> SIG_IGN \<and> original_segv_handler s \<noteq> SIG_DFL
         then call (original_segv_handler s) x
                (s4\<lparr>stderr := stderr s4 @ [Text (''Calling original SIGSEGV handler.'' @ newline)]\<rparr>)
         else NoReturn
                (s4\<lparr>stderr := stderr s4 @
                     [Text (''No other SIGSEGV handler available. Quitting.'' @ newline)],
                    status := Exited (push_bit 7 1 OR x)\<rparr>))"
  by (simp add: handle_segv_def WRITE_def backtrace_def backtrace_symbols_fd_def c_exit_def
      Let_def frames_fit del: push_bit_of_1)

text \<open>
  Run with a host whose functions return at once, \<open>handle_segv\<close> ends in the state it
  has built itself. With any host it ends in one of two ways: one call of the saved
  handler in that state, or the end of the process in that state.
\<close>

lemma handle_segv_delegates:
  assumes "original_segv_handler s \<noteq> SIG_IGN" "original_segv_handler s \<noteq> SIG_DFL"
  shows "handle_segv call x stack s =
           call (original_segv_handler s) x (state_of (handle_segv idle_host x stack s))"
  using assms by (simp add: handle_segv_unfold Let_def idle_host_def)

lemma handle_segv_quits:
  assumes "original_segv_handler s = SIG_IGN \<or> original_segv_handler s = SIG_DFL"
  shows "handle_segv call x stack s = NoReturn (state_of (handle_segv idle_host x stack s))"
  using assms by (auto simp add: handle_segv_unfold Let_def simp del: push_bit_of_1)

lemma handle_segv_ends:
  "handle_segv call x stack s =
     (if original_segv_handler s \<noteq> SIG_IGN \<and> original_segv_handler s \<noteq> SIG_DFL
      then call (original_segv_handler s) x (state_of (handle_segv idle_host x stack s))
      else NoReturn (state_of (handle_segv idle_host x stack s)))"
  using handle_segv_delegates [of s call x stack] handle_segv_quits [of s call x stack]
  by presburger

lemma probe_status:
  "status (state_of (handle_segv idle_host x stack s)) =
     (if original_segv_handler s \<noteq> SIG_IGN \<and> original_segv_handler s \<noteq> SIG_DFL
      then status s else Exited (push_bit 7 1 OR x))"
  by (simp add: handle_segv_unfold Let_def idle_host_def del: push_bit_of_1)

lemma probe_kept:
  "disp (state_of (handle_segv idle_host x stack s)) = disp s"
  "original_segv_handler (state_of (handle_segv idle_host x stack s)) = original_segv_handler s"
  by (simp_all add: handle_segv_unfold Let_def idle_host_def del: push_bit_of_1)

lemma probe_buffer:
  "trace (state_of (handle_segv idle_host x stack s)) =
     take (min (length stack) TRACEBUFLEN) stack @ drop (min (length stack) TRACEBUFLEN) (trace s)"
  "traces (state_of (handle_segv idle_host x stack s)) = of_nat (min (length stack) TRACEBUFLEN)"
  by (simp_all add: handle_segv_unfold Let_def idle_host_def del: push_bit_of_1)

lemma take_min_length: "take (min (length xs) n) xs = take n xs"
  by (simp add: min_def)

lemma probe_stderr:
  "\<exists>notice. stderr (state_of (handle_segv idle_host x stack s)) =
     stderr s @ Text (''SIGSEGV received. Backtrace:'' @ newline)
       # map Frame (take TRACEBUFLEN stack) @ [Text ''End of backtrace. '', Text notice]"
  by (simp add: handle_segv_unfold Let_def idle_host_def take_min_length del: push_bit_of_1)

lemma armed_proc_handler: "original_segv_handler armed_proc = Host 0"
  by (simp add: armed_proc_def hosted_proc_def set_segv_def sigaction_def SIGSEGV_def)

lemma armed_proc_status: "status armed_proc = Running"
  by (simp add: armed_proc_def hosted_proc_def fresh_proc_def set_segv_def sigaction_def)

section \<open>Delegating or terminating\<close>

text \<open>
  C1. Whatever the saved handler is, \<open>handle_segv\<close> with signal number \<open>x\<close> does one
  of two things. If the saved handler is neither \<open>SIG_IGN\<close> nor \<open>SIG_DFL\<close>, the whole
  of what follows the backtrace is one call of the saved function with the same \<open>x\<close>,
  in a state that does not depend on what that function does, and in which the process
  is as alive as before. Otherwise the result does not depend on the host's code at
  all: no function is called, and the process has exited.
\<close>

theorem fault_handler_delegates_or_terminates:
  "(original_segv_handler s \<noteq> SIG_IGN \<and> original_segv_handler s \<noteq> SIG_DFL \<longrightarrow>
      (\<exists>s1. status s1 = status s
         \<and> (\<forall>call. handle_segv call x stack s = call (original_segv_handler s) x s1)))
   \<and> (original_segv_handler s = SIG_IGN \<or> original_segv_handler s = SIG_DFL \<longrightarrow>
      (\<exists>s'. (\<exists>st. status s' = Exited st)
         \<and> (\<forall>call. handle_segv call x stack s = NoReturn s')))"
proof (intro conjI impI)
  assume custom: "original_segv_handler s \<noteq> SIG_IGN \<and> original_segv_handler s \<noteq> SIG_DFL"
  let ?s1 = "state_of (handle_segv idle_host x stack s)"
  have "status ?s1 = status s"
    using custom by (simp add: probe_status)
  moreover have "\<forall>call. handle_segv call x stack s = call (original_segv_handler s) x ?s1"
    using custom handle_segv_delegates [of s] by blast
  ultimately show "\<exists>s1. status s1 = status s
      \<and> (\<forall>call. handle_segv call x stack s = call (original_segv_handler s) x s1)"
    by blast
next
  assume sentinel: "original_segv_handler s = SIG_IGN \<or> original_segv_handler s = SIG_DFL"
  let ?s' = "state_of (handle_segv idle_host x stack s)"
  have "\<exists>st. status ?s' = Exited st"
    using sentinel by (auto simp add: probe_status)
  moreover have "\<forall>call. handle_segv call x stack s = NoReturn ?s'"
    using sentinel handle_segv_quits [of s] by blast
  ultimately show "\<exists>s'. (\<exists>st. status s' = Exited st)
      \<and> (\<forall>call. handle_segv call x stack s = NoReturn s')"
    by blast
qed

theorem fault_handler_delegates_or_terminates_witness:
  "original_segv_handler armed_proc = Host 0
   \<and> (\<exists>s1. status s1 = Running
        \<and> (\<forall>call. handle_segv call SIGSEGV [1, 2, 3] armed_proc = call (Host 0) SIGSEGV s1))
   \<and> original_segv_handler fresh_proc = SIG_DFL
   \<and> (\<exists>s'. (\<exists>st. status s' = Exited st)
        \<and> (\<forall>call. handle_segv call SIGSEGV [1, 2, 3] fresh_proc = NoReturn s'))"
proof -
  have dfl: "original_segv_handler fresh_proc = SIG_DFL"
    by (simp add: fresh_proc_def)
  show ?thesis
    using fault_handler_delegates_or_terminates [of armed_proc SIGSEGV "[1, 2, 3]"]
      fault_handler_delegates_or_terminates [of fresh_proc SIGSEGV "[1, 2, 3]"]
    by (simp add: armed_proc_handler armed_proc_status dfl)
qed

section \<open>Returning to the interrupted code\<close>

text \<open>
  C2, as the spec states it, fails: with a saved handler that returns, \<open>handle_segv\<close>
  has nothing left to do after the call and returns as well.
\<close>

theorem fault_handler_returns_counterexample:
  "returns (handle_segv idle_host SIGSEGV [1, 2, 3] armed_proc)"
  by (simp add: handle_segv_unfold Let_def armed_proc_handler idle_host_def)

text \<open>
  C2, amended. \<open>handle_segv\<close> returns exactly when the saved handler is a function
  (neither \<open>SIG_IGN\<close> nor \<open>SIG_DFL\<close>) and the call of that function, made after the
  backtrace is written, returns. With a sentinel saved it never returns.
\<close>

theorem fault_handler_returns_iff_delegate_returns:
  "returns (handle_segv call x stack s) \<longleftrightarrow>
     original_segv_handler s \<noteq> SIG_IGN \<and> original_segv_handler s \<noteq> SIG_DFL
     \<and> returns (call (original_segv_handler s) x (state_of (handle_segv idle_host x stack s)))"
proof (cases "original_segv_handler s = SIG_IGN \<or> original_segv_handler s = SIG_DFL")
  case True
  then show ?thesis
    using handle_segv_quits [of s call x stack] by auto
next
  case False
  then show ?thesis
    using handle_segv_delegates [of s call x stack] by simp
qed

theorem fault_handler_returns_iff_delegate_returns_witness:
  "returns (handle_segv idle_host SIGSEGV [1, 2, 3] armed_proc)
   \<and> \<not> returns (handle_segv quitting_host SIGSEGV [1, 2, 3] armed_proc)
   \<and> \<not> returns (handle_segv idle_host SIGSEGV [1, 2, 3] fresh_proc)"
proof -
  have dfl: "original_segv_handler fresh_proc = SIG_DFL"
    by (simp add: fresh_proc_def)
  show ?thesis
    using fault_handler_returns_iff_delegate_returns [of idle_host SIGSEGV "[1, 2, 3]" armed_proc]
      fault_handler_returns_iff_delegate_returns [of quitting_host SIGSEGV "[1, 2, 3]" armed_proc]
      fault_handler_returns_iff_delegate_returns [of idle_host SIGSEGV "[1, 2, 3]" fresh_proc]
    by (simp add: armed_proc_handler dfl idle_host_def quitting_host_def c_exit_def)
qed

section \<open>The exit status\<close>

text \<open>
  C3. When the saved handler is \<open>SIG_IGN\<close> or \<open>SIG_DFL\<close>, \<open>handle_segv\<close> does not
  return and leaves the process exited with status \<open>(1 << 7) | x\<close>. For a signal
  number \<open>x\<close> from 0 to 127 that status is \<open>128 + x\<close>, as a word and as a number,
  and it fits the eight bits a parent sees.
\<close>

theorem exit_status_encodes_signal:
  assumes "original_segv_handler s = SIG_IGN \<or> original_segv_handler s = SIG_DFL"
  shows "\<not> returns (handle_segv call x stack s)
     \<and> status (state_of (handle_segv call x stack s)) = Exited (push_bit 7 1 OR x)
     \<and> (0 \<le> sint x \<and> sint x < 128 \<longrightarrow>
          push_bit 7 1 OR x = 128 + x
          \<and> sint (push_bit 7 1 OR x) = 128 + sint x
          \<and> (push_bit 7 1 OR x) AND 255 = push_bit 7 1 OR x)"
proof -
  have "handle_segv call x stack s = NoReturn (state_of (handle_segv call x stack s))"
    using assms by (auto simp add: handle_segv_unfold Let_def simp del: push_bit_of_1)
  then have "\<not> returns (handle_segv call x stack s)"
    by (metis returns.simps(2))
  moreover have "status (state_of (handle_segv call x stack s)) = Exited (push_bit 7 1 OR x)"
    using assms by (auto simp add: handle_segv_unfold Let_def simp del: push_bit_of_1)
  moreover have "push_bit 7 1 OR x = 128 + x" "sint (push_bit 7 1 OR x) = 128 + sint x"
    "(push_bit 7 1 OR x) AND 255 = push_bit 7 1 OR x"
    if "0 \<le> sint x" "sint x < 128"
    using that or_is_plus_128 [of x] sint_plus_128 [of x] status_fits_byte [of x]
    by simp_all
  ultimately show ?thesis
    by blast
qed

theorem exit_status_encodes_signal_witness:
  "original_segv_handler fresh_proc = SIG_DFL
   \<and> (0::int) \<le> sint SIGSEGV \<and> sint SIGSEGV < 128
   \<and> \<not> returns (handle_segv idle_host SIGSEGV [1, 2, 3] fresh_proc)
   \<and> status (state_of (handle_segv idle_host SIGSEGV [1, 2, 3] fresh_proc)) = Exited 139"
proof -
  have h: "original_segv_handler fresh_proc = SIG_IGN \<or> original_segv_handler fresh_proc = SIG_DFL"
    by (simp add: fresh_proc_def)
  show ?thesis
    using exit_status_encodes_signal [OF h, of idle_host SIGSEGV "[1, 2, 3]"]
    by (simp add: fresh_proc_def SIGSEGV_def)
qed

section \<open>The backtrace buffer\<close>

text \<open>
  C7. Take a process whose buffer has the \<open>TRACEBUFLEN\<close> entries the source declares,
  and a call stack of any depth. In the state \<open>handle_segv\<close> reaches before it
  delegates or exits, the buffer still has 64 entries (nothing was stored past its end),
  the frame count is the smaller of the stack's depth and 64, the buffer starts with
  that many innermost frames, and exactly those frames, at most 64, were written between
  the two notices. A deeper stack is cut off at 64 frames; the handler goes on as usual.
\<close>

theorem backtrace_is_bounded:
  assumes "length (trace s) = TRACEBUFLEN"
  shows "\<exists>s1 notice.
     (\<forall>call. handle_segv call x stack s =
        (if original_segv_handler s \<noteq> SIG_IGN \<and> original_segv_handler s \<noteq> SIG_DFL
         then call (original_segv_handler s) x s1 else NoReturn s1))
     \<and> length (trace s1) = TRACEBUFLEN
     \<and> sint (traces s1) = int (min (length stack) TRACEBUFLEN)
     \<and> sint (traces s1) \<le> 64
     \<and> take (nat (sint (traces s1))) (trace s1) = take TRACEBUFLEN stack
     \<and> stderr s1 = stderr s @ Text (''SIGSEGV received. Backtrace:'' @ newline)
          # map Frame (take TRACEBUFLEN stack) @ [Text ''End of backtrace. '', Text notice]
     \<and> length (map Frame (take TRACEBUFLEN stack)) \<le> 64"
proof -
  let ?n = "min (length stack) TRACEBUFLEN"
  let ?s1 = "state_of (handle_segv idle_host x stack s)"
  have n: "nat (sint (traces ?s1)) = ?n"
    by (simp only: probe_buffer frames_fit)
  have count: "sint (traces ?s1) = int ?n"
  proof -
    have "0 \<le> sint (of_nat ?n :: c_int)"
      by (simp add: signed_of_nat signed_take_bit_int_eq_self TRACEBUFLEN_def min_def)
    then show ?thesis
      using n by (simp only: probe_buffer)
  qed
  have "length (trace ?s1) = TRACEBUFLEN"
    using assms by (simp add: probe_buffer)
  moreover have "sint (traces ?s1) \<le> 64"
    using count by (simp add: TRACEBUFLEN_def)
  moreover have "take (nat (sint (traces ?s1))) (trace ?s1) = take TRACEBUFLEN stack"
    by (simp only: n) (simp add: probe_buffer min_def)
  moreover have "length (map Frame (take TRACEBUFLEN stack)) \<le> 64"
    by (simp add: TRACEBUFLEN_def)
  moreover have "\<forall>call. handle_segv call x stack s =
        (if original_segv_handler s \<noteq> SIG_IGN \<and> original_segv_handler s \<noteq> SIG_DFL
         then call (original_segv_handler s) x ?s1 else NoReturn ?s1)"
    using handle_segv_ends [of _ x stack s] by blast
  ultimately show ?thesis
    using count probe_stderr [of x stack s] by blast
qed

theorem backtrace_is_bounded_witness:
  "length (trace fresh_proc) = TRACEBUFLEN
   \<and> length [0..<100] = 100
   \<and> sint (traces (state_of (handle_segv idle_host SIGSEGV [0..<100] fresh_proc))) = 64
   \<and> length (trace (state_of (handle_segv idle_host SIGSEGV [0..<100] fresh_proc))) = 64
   \<and> take 64 (trace (state_of (handle_segv idle_host SIGSEGV [0..<100] fresh_proc))) = [0..<64]"
proof -
  have len: "length (trace fresh_proc) = TRACEBUFLEN"
    by (simp add: fresh_proc_def)
  have dfl: "original_segv_handler fresh_proc = SIG_DFL"
    by (simp add: fresh_proc_def)
  obtain s1 where "handle_segv idle_host SIGSEGV [0..<100] fresh_proc = NoReturn s1"
    and "length (trace s1) = TRACEBUFLEN"
    and "sint (traces s1) = int (min (length [0..<100]) TRACEBUFLEN)"
    and "take (nat (sint (traces s1))) (trace s1) = take TRACEBUFLEN [0..<100]"
    using backtrace_is_bounded [OF len, of SIGSEGV "[0..<100]"] dfl by auto
  then show ?thesis
    using len by (simp add: TRACEBUFLEN_def)
qed

section \<open>What is kept of the host's disposition\<close>

text \<open>
  C10. \<open>set_segv\<close> keeps the handler pointer of the disposition it replaces and nothing
  else: two earlier dispositions of SIGSEGV with the same handler, whatever their flags
  and masks, lead to the same process. On delegation \<open>handle_segv\<close> calls the saved
  function itself, with the table of dispositions as it found it: the host's earlier
  disposition is not put back.
\<close>

theorem only_handler_pointer_saved:
  "(sa_handler a = sa_handler b \<longrightarrow>
      set_segv y (s\<lparr>disp := (disp s)(SIGSEGV := a)\<rparr>)
        = set_segv y (s\<lparr>disp := (disp s)(SIGSEGV := b)\<rparr>))
   \<and> original_segv_handler (set_segv y s) = sa_handler (disp s SIGSEGV)
   \<and> (original_segv_handler s \<noteq> SIG_IGN \<and> original_segv_handler s \<noteq> SIG_DFL \<longrightarrow>
        (\<exists>s1. disp s1 = disp s
           \<and> (\<forall>call. handle_segv call x stack s = call (original_segv_handler s) x s1)))"
proof (intro conjI impI)
  assume "sa_handler a = sa_handler b"
  then show "set_segv y (s\<lparr>disp := (disp s)(SIGSEGV := a)\<rparr>)
      = set_segv y (s\<lparr>disp := (disp s)(SIGSEGV := b)\<rparr>)"
    by (simp add: set_segv_def sigaction_def)
next
  show "original_segv_handler (set_segv y s) = sa_handler (disp s SIGSEGV)"
    by (simp add: set_segv_def sigaction_def)
next
  assume custom: "original_segv_handler s \<noteq> SIG_IGN \<and> original_segv_handler s \<noteq> SIG_DFL"
  let ?s1 = "state_of (handle_segv idle_host x stack s)"
  have "disp ?s1 = disp s"
    by (simp add: probe_kept)
  moreover have "\<forall>call. handle_segv call x stack s = call (original_segv_handler s) x ?s1"
    using custom handle_segv_delegates [of s] by blast
  ultimately show "\<exists>s1. disp s1 = disp s
      \<and> (\<forall>call. handle_segv call x stack s = call (original_segv_handler s) x s1)"
    by blast
qed

theorem only_handler_pointer_saved_witness:
  "sa_handler \<lparr>sa_handler = Host 0, sa_flags = {SA_RESTART}, sa_mask = {IPC_SIG}\<rparr>
     = sa_handler \<lparr>sa_handler = Host 0, sa_flags = {}, sa_mask = {}\<rparr>
   \<and> set_segv IPC_SIG (fresh_proc\<lparr>disp := (disp fresh_proc)
         (SIGSEGV := \<lparr>sa_handler = Host 0, sa_flags = {SA_RESTART}, sa_mask = {IPC_SIG}\<rparr>)\<rparr>)
       = armed_proc
   \<and> original_segv_handler armed_proc = Host 0
   \<and> sa_handler (disp armed_proc SIGSEGV) = Lib_handle_segv
   \<and> (\<exists>s1. sa_handler (disp s1 SIGSEGV) = Lib_handle_segv
        \<and> (\<forall>call. handle_segv call SIGSEGV [1, 2, 3] armed_proc = call (Host 0) SIGSEGV s1))"
proof -
  have armed: "sa_handler (disp armed_proc SIGSEGV) = Lib_handle_segv"
    by (simp add: armed_proc_def set_segv_def sigaction_def)
  have "\<exists>s1. disp s1 = disp armed_proc
        \<and> (\<forall>call. handle_segv call SIGSEGV [1, 2, 3] armed_proc = call (Host 0) SIGSEGV s1)"
    using only_handler_pointer_saved [of _ _ _ armed_proc SIGSEGV "[1, 2, 3]"]
    by (simp add: armed_proc_handler)
  then have call: "\<exists>s1. sa_handler (disp s1 SIGSEGV) = Lib_handle_segv
        \<and> (\<forall>call. handle_segv call SIGSEGV [1, 2, 3] armed_proc = call (Host 0) SIGSEGV s1)"
    using armed by metis
  have same: "set_segv IPC_SIG (fresh_proc\<lparr>disp := (disp fresh_proc)
         (SIGSEGV := \<lparr>sa_handler = Host 0, sa_flags = {SA_RESTART}, sa_mask = {IPC_SIG}\<rparr>)\<rparr>)
       = armed_proc"
    using only_handler_pointer_saved
      [of "\<lparr>sa_handler = Host 0, sa_flags = {SA_RESTART}, sa_mask = {IPC_SIG}\<rparr>"
          "\<lparr>sa_handler = Host 0, sa_flags = {}, sa_mask = {}\<rparr>" IPC_SIG fresh_proc]
    by (simp add: armed_proc_def hosted_proc_def)
  show ?thesis
    using same call armed by (simp add: armed_proc_handler)
qed

section \<open>The watchdog\<close>

text \<open>
  C4, as the spec states it, fails. The child compares whole seconds. It reads 100 at
  100.900 s; its first sleep is cut short, it reads 101 at 101.500 s and sleeps the 2
  seconds that remain by its count; it reads 103 at 103.500 s and sends the signal,
  2.6 seconds after it started, short of \<open>DELAY\<close>. And at the far end of the range
  of \<open>time_t\<close> the sum \<open>start_time + DELAY\<close> wraps around: the loop is left at the
  first reading, whatever it is.
\<close>

theorem watchdog_early_signal_counterexample:
  "child 1 (map time_at [100900, 100950, 101500, 103500]) =
       Some [Time 100, Time 100, Sleep 3, Time 101, Sleep 2, Time 103, Kill 1 IPC_SIG]
   \<and> (103500::int) - 100900 < 1000 * sint DELAY
   \<and> child 1 [2 ^ 63 - 1, 2 ^ 63 - 1] =
       Some [Time (2 ^ 63 - 1), Time (2 ^ 63 - 1), Sleep 3, Kill 1 IPC_SIG]"
  by (simp add: child_def time_at_def Let_def DELAY_def word_sless_alt)

text \<open>As long as the readings stay within \<open>2 ^ 61\<close> seconds of the Epoch, nothing in
  the loop wraps around.\<close>

lemma sint_DELAY: "sint DELAY = 3"
  by (simp add: DELAY_def)

lemma deadline_fits:
  fixes start :: time_t
  assumes "- (2 ^ 61) \<le> sint start" "sint start < 2 ^ 61"
  shows "sint (start + DELAY) = sint start + sint DELAY"
  using assms by (simp add: sint_word_ariths signed_take_bit_int_eq_self sint_DELAY)

lemma remaining_fits:
  fixes start t :: time_t
  assumes "- (2 ^ 61) \<le> sint start" "sint start < 2 ^ 61"
    and "- (2 ^ 61) \<le> sint t" "sint t < 2 ^ 61"
  shows "sint (start + DELAY - t) = sint start + sint DELAY - sint t"
proof -
  have "sint (start + DELAY - t) = signed_take_bit 63 (sint (start + DELAY) - sint t)"
    by (simp add: sint_word_ariths)
  also have "\<dots> = signed_take_bit 63 (sint start + sint DELAY - sint t)"
    using deadline_fits [OF assms(1,2)] by simp
  also have "\<dots> = sint start + sint DELAY - sint t"
  proof -
    have "- (2 ^ 63) \<le> sint start + sint DELAY - sint t"
      "sint start + sint DELAY - sint t < 2 ^ 63"
      using assms by (simp_all add: sint_DELAY)
    then show ?thesis
      by (rule signed_take_bit_int_eq_self)
  qed
  finally show ?thesis .
qed

lemma before_deadline:
  fixes start t :: time_t
  assumes "- (2 ^ 61) \<le> sint start" "sint start < 2 ^ 61"
  shows "t <s start + DELAY \<longleftrightarrow> sint t < sint start + sint DELAY"
  using deadline_fits [OF assms] by (simp add: word_sless_alt)

lemma time_remains:
  fixes start t :: time_t
  assumes "- (2 ^ 61) \<le> sint start" "sint start < 2 ^ 61"
    and "- (2 ^ 61) \<le> sint t" "sint t < 2 ^ 61"
  shows "0 <s start + DELAY - t \<longleftrightarrow> sint t < sint start + sint DELAY"
  using remaining_fits [OF assms] by (simp add: word_sless_alt)

lemma sint_time_at:
  assumes "- (2 ^ 61) \<le> ms div 1000" "ms div 1000 < 2 ^ 61"
  shows "sint (time_at ms) = ms div 1000"
  using assms by (simp add: time_at_def signed_of_int signed_take_bit_int_eq_self)

lemma child_loop_finishes:
  assumes "- (2 ^ 61) \<le> sint start" "sint start < 2 ^ 61"
  shows "child_loop start clock \<noteq> None \<longleftrightarrow> (\<exists>t\<in>set clock. sint start + sint DELAY \<le> sint t)"
  by (induction clock) (auto simp add: Let_def before_deadline [OF assms])

lemma child_loop_shape:
  assumes fits: "- (2 ^ 61) \<le> sint start" "sint start < 2 ^ 61"
  shows "\<forall>t\<in>set clock. - (2 ^ 61) \<le> sint t \<and> sint t < 2 ^ 61 \<Longrightarrow>
     child_loop start clock = Some calls \<Longrightarrow>
     \<exists>before t. calls = before @ [Time t] \<and> t \<in> set clock
       \<and> sint start + sint DELAY \<le> sint t
       \<and> (\<forall>c\<in>set before.
             (\<forall>p sg. c \<noteq> Kill p sg) \<and> (\<forall>u. c = Time u \<longrightarrow> sint u < sint start + sint DELAY))"
proof (induction clock arbitrary: calls)
  case Nil
  then show ?case by simp
next
  case (Cons t clock)
  have t: "- (2 ^ 61) \<le> sint t" "sint t < 2 ^ 61"
    using Cons.prems(1) by simp_all
  have later: "\<forall>t\<in>set clock. - (2 ^ 61) \<le> sint t \<and> sint t < 2 ^ 61"
    using Cons.prems(1) by simp
  show ?case
  proof (cases "t <s start + DELAY")
    case True
    let ?head = "Time t #
      (if 0 <s start + DELAY - t then [Sleep (ucast (start + DELAY - t))] else [])"
    from Cons.prems(2) True obtain rest where rest: "child_loop start clock = Some rest"
      and calls: "calls = ?head @ rest"
      by (auto simp add: Let_def)
    from Cons.IH [OF later rest] obtain before u where
      r: "rest = before @ [Time u]" and m: "u \<in> set clock"
      and u: "sint start + sint DELAY \<le> sint u"
      and b: "\<forall>c\<in>set before.
        (\<forall>p sg. c \<noteq> Kill p sg) \<and> (\<forall>v. c = Time v \<longrightarrow> sint v < sint start + sint DELAY)"
      by blast
    have early: "sint t < sint start + sint DELAY"
      using True by (simp add: before_deadline [OF fits])
    have "calls = (?head @ before) @ [Time u]"
      using calls r by simp
    moreover have "\<forall>c\<in>set (?head @ before).
        (\<forall>p sg. c \<noteq> Kill p sg) \<and> (\<forall>v. c = Time v \<longrightarrow> sint v < sint start + sint DELAY)"
      using b early by auto
    ultimately show ?thesis
      using u m by (metis list.set_intros(2))
  next
    case False
    then have late: "sint start + sint DELAY \<le> sint t"
      by (simp add: before_deadline [OF fits])
    then have "\<not> 0 <s start + DELAY - t"
      by (simp add: time_remains [OF fits t])
    with Cons.prems(2) False have "calls = [] @ [Time t]"
      by (simp add: Let_def)
    then show ?thesis
      using late by fastforce
  qed
qed

lemma a_second_short:
  fixes i i0 :: int
  assumes "i0 div 1000 + 3 \<le> i div 1000"
  shows "2000 < i - i0"
proof -
  have "i0 = 1000 * (i0 div 1000) + i0 mod 1000" "i = 1000 * (i div 1000) + i mod 1000"
    by simp_all
  moreover have "i0 mod 1000 < 1000" "0 \<le> i mod 1000"
    by simp_all
  ultimately show ?thesis
    using assms by linarith
qed

lemma reading_of_instant:
  fixes t :: time_t
  shows "time_at (1000 * sint t) = t"
  by (simp add: time_at_def)

text \<open>
  C4, amended. Let the child read the clock at the instant \<open>i0\<close> and then at the
  instants \<open>instants\<close> (in milliseconds; each \<open>sleep\<close> may have ended at any moment),
  all within \<open>2 ^ 61\<close> seconds of the Epoch; any list of readings in that range comes
  from such instants. The child gets out of its loop exactly when some reading, in
  whole seconds, has reached the first reading plus \<open>DELAY\<close>. When it does, its
  system calls end with such a reading, followed at once by the one \<open>kill\<close> of the
  handshake signal to the parent; before that there is no \<open>kill\<close>, and every earlier
  reading was short of the first reading plus \<open>DELAY\<close>. The instant of that last
  reading is more than \<open>DELAY - 1\<close> seconds after the instant of the first.
\<close>

theorem watchdog_signals_after_deadline:
  assumes "\<forall>i\<in>set (i0 # instants). - (2 ^ 61) \<le> i div 1000 \<and> i div 1000 < 2 ^ 61"
  shows "(child ppid (map time_at (i0 # instants)) \<noteq> None
           \<longleftrightarrow> (\<exists>i\<in>set instants. i0 div 1000 + sint DELAY \<le> i div 1000))
   \<and> (\<forall>calls. child ppid (map time_at (i0 # instants)) = Some calls \<longrightarrow>
        (\<exists>before i. i \<in> set instants
           \<and> calls = before @ [Time (time_at i), Kill ppid IPC_SIG]
           \<and> i0 div 1000 + sint DELAY \<le> i div 1000
           \<and> 1000 * (sint DELAY - 1) < i - i0
           \<and> (\<forall>c\<in>set before.
                 (\<forall>p sg. c \<noteq> Kill p sg)
                 \<and> (\<forall>u. c = Time u \<longrightarrow> sint u < i0 div 1000 + sint DELAY))))"
proof (intro conjI allI impI)
  have s0: "sint (time_at i0) = i0 div 1000"
    using assms by (simp add: sint_time_at)
  have fits: "- (2 ^ 61) \<le> sint (time_at i0)" "sint (time_at i0) < 2 ^ 61"
    using assms by (simp_all add: s0)
  have each: "sint (time_at i) = i div 1000" if "i \<in> set instants" for i
    using assms that by (simp add: sint_time_at)
  have readings: "\<forall>t\<in>set (map time_at instants). - (2 ^ 61) \<le> sint t \<and> sint t < 2 ^ 61"
    using assms each by auto
  show "child ppid (map time_at (i0 # instants)) \<noteq> None
           \<longleftrightarrow> (\<exists>i\<in>set instants. i0 div 1000 + sint DELAY \<le> i div 1000)"
    using child_loop_finishes [OF fits, of "map time_at instants"] each
    by (auto simp add: child_def s0)
  fix calls
  assume "child ppid (map time_at (i0 # instants)) = Some calls"
  then obtain inner where inner: "child_loop (time_at i0) (map time_at instants) = Some inner"
    and calls: "calls = Time (time_at i0) # inner @ [Kill ppid IPC_SIG]"
    by (auto simp add: child_def)
  from child_loop_shape [OF fits readings inner] obtain before t where
    i: "inner = before @ [Time t]" and m: "t \<in> set (map time_at instants)"
    and t: "sint (time_at i0) + sint DELAY \<le> sint t"
    and b: "\<forall>c\<in>set before.
      (\<forall>p sg. c \<noteq> Kill p sg) \<and> (\<forall>u. c = Time u \<longrightarrow> sint u < sint (time_at i0) + sint DELAY)"
    by blast
  from m obtain i1 where i1: "i1 \<in> set instants" "t = time_at i1"
    by auto
  have reached: "i0 div 1000 + sint DELAY \<le> i1 div 1000"
    using t i1 each s0 by simp
  then have elapsed: "1000 * (sint DELAY - 1) < i1 - i0"
    using a_second_short [of i0 i1] by (simp add: sint_DELAY)
  have "calls = (Time (time_at i0) # before) @ [Time (time_at i1), Kill ppid IPC_SIG]"
    using calls i i1 by simp
  moreover have "\<forall>c\<in>set (Time (time_at i0) # before).
      (\<forall>p sg. c \<noteq> Kill p sg) \<and> (\<forall>u. c = Time u \<longrightarrow> sint u < i0 div 1000 + sint DELAY)"
    using b by (simp add: s0 sint_DELAY)
  ultimately show "\<exists>before i. i \<in> set instants
           \<and> calls = before @ [Time (time_at i), Kill ppid IPC_SIG]
           \<and> i0 div 1000 + sint DELAY \<le> i div 1000
           \<and> 1000 * (sint DELAY - 1) < i - i0
           \<and> (\<forall>c\<in>set before.
                 (\<forall>p sg. c \<noteq> Kill p sg)
                 \<and> (\<forall>u. c = Time u \<longrightarrow> sint u < i0 div 1000 + sint DELAY))"
    using i1(1) reached elapsed by blast
qed

theorem watchdog_signals_after_deadline_witness:
  "child 1 (map time_at [100900, 100950, 101500, 103500]) =
       Some [Time 100, Time 100, Sleep 3, Time 101, Sleep 2, Time 103, Kill 1 IPC_SIG]
   \<and> (\<exists>i\<in>set [100950, 101500, 103500]. 100900 div 1000 + sint DELAY \<le> i div 1000)
   \<and> 1000 * (sint DELAY - 1) < (103500::int) - 100900"
proof -
  have range: "\<forall>i\<in>set (100900 # [100950, 101500, 103500]).
      - (2 ^ 61) \<le> i div 1000 \<and> i div 1000 < (2 ^ 61 :: int)"
    by simp
  have run: "child 1 (map time_at [100900, 100950, 101500, 103500]) =
       Some [Time 100, Time 100, Sleep 3, Time 101, Sleep 2, Time 103, Kill 1 IPC_SIG]"
    by (simp add: child_def time_at_def Let_def DELAY_def word_sless_alt)
  have "\<exists>i\<in>set [100950, 101500, 103500]. 100900 div 1000 + sint DELAY \<le> i div 1000"
    using watchdog_signals_after_deadline [OF range, of 1] run by simp
  then show ?thesis
    using run by (simp add: sint_DELAY)
qed

section \<open>The process over its life\<close>

subsection \<open>Code that keeps clear of the library\<close>

lemma signals_differ: "SIGSEGV \<noteq> IPC_SIG"
  by (simp add: SIGSEGV_def IPC_SIG_def SIGUNUSED_def)

lemma untouched_refl: "untouched s s"
  by (simp add: untouched_def)

lemma untouched_trans: "untouched s s' \<Longrightarrow> untouched s' s'' \<Longrightarrow> untouched s s''"
  by (auto simp add: untouched_def)

lemma untouched_status: "untouched s (s\<lparr>status := st\<rparr>)"
  by (simp add: untouched_def)

lemma untouched_reset:
  "untouched s (s\<lparr>disp := (disp s)(sig := (disp s sig)\<lparr>sa_handler := SIG_DFL\<rparr>)\<rparr>)"
  by (simp add: untouched_def)

lemma untouched_handle_segv:
  assumes "host_keeps_clear call"
  shows "untouched s (state_of (handle_segv call x stack s))"
proof -
  let ?s1 = "state_of (handle_segv idle_host x stack s)"
  have s1: "untouched s ?s1"
    by (simp add: untouched_def probe_kept)
  show ?thesis
  proof (cases "original_segv_handler s \<noteq> SIG_IGN \<and> original_segv_handler s \<noteq> SIG_DFL")
    case True
    then have "handle_segv call x stack s = call (original_segv_handler s) x ?s1"
      using handle_segv_delegates [of s call x stack] by blast
    moreover have "untouched ?s1 (state_of (call (original_segv_handler s) x ?s1))"
      using assms by (simp add: host_keeps_clear_def)
    ultimately show ?thesis
      using s1 untouched_trans by metis
  next
    case False
    then have "handle_segv call x stack s = NoReturn ?s1"
      using handle_segv_quits [of s call x stack] by blast
    then show ?thesis
      using s1 by simp
  qed
qed

lemma untouched_invoke:
  assumes "host_keeps_clear call" "h \<noteq> Lib_set_segv"
  shows "untouched s (state_of (invoke call h sig stack s))"
proof (cases h)
  case Lib_handle_segv
  then show ?thesis
    using untouched_handle_segv [OF assms(1)] by (simp add: invoke_def)
next
  case Lib_set_segv
  then show ?thesis using assms(2) by simp
qed (use assms(1) in \<open>simp_all add: invoke_def host_keeps_clear_def\<close>)

lemma untouched_deliver:
  assumes "host_keeps_clear call" "sa_handler (disp s sig) \<noteq> Lib_set_segv"
  shows "untouched s (deliver call sig stack s)"
proof -
  let ?r = "s\<lparr>disp := (disp s)(sig := (disp s sig)\<lparr>sa_handler := SIG_DFL\<rparr>)\<rparr>"
  have "untouched s (state_of (invoke call (sa_handler (disp s sig)) sig stack s))"
    using assms by (rule untouched_invoke)
  moreover have "untouched s (state_of (invoke call (sa_handler (disp s sig)) sig stack ?r))"
    using untouched_reset [of s sig] untouched_invoke [OF assms, of ?r sig stack]
      untouched_trans by blast
  ultimately show ?thesis
    by (simp add: deliver_def Let_def untouched_refl untouched_status)
qed

lemma untouched_step:
  assumes "host_keeps_clear call" "started e s \<noteq> [Lib_set_segv]"
  shows "untouched s (step call e s)"
proof (cases e)
  case (Signal sig stack)
  show ?thesis
  proof (cases "sa_handler (disp s sig) = Lib_set_segv")
    case True
    with assms(2) Signal have "status s \<noteq> Running"
      by auto
    then show ?thesis
      using Signal by (simp add: deliver_def untouched_refl)
  next
    case False
    then show ?thesis
      using Signal untouched_deliver [OF assms(1)] by simp
  qed
next
  case (HostRuns f x)
  then show ?thesis
    using assms(1) by (simp add: host_keeps_clear_def untouched_refl)
qed

lemma started_cases:
  "h \<in> set (started e s) \<Longrightarrow>
     \<exists>sig stack. e = Signal sig stack \<and> sa_handler (disp s sig) = h \<and> status s = Running"
  by (cases e) (auto split: if_splits)





lemma handshake_delivery:
  assumes "status s = Running" "sa_handler (disp s IPC_SIG) = Lib_set_segv"
    "SA_RESETHAND \<in> sa_flags (disp s IPC_SIG)"
  shows "deliver call IPC_SIG stack s =
           s\<lparr>disp := (disp s)
                (IPC_SIG := (disp s IPC_SIG)\<lparr>sa_handler := SIG_DFL\<rparr>,
                 SIGSEGV := \<lparr>sa_handler = Lib_handle_segv, sa_flags = {}, sa_mask = {}\<rparr>),
              original_segv_handler := sa_handler (disp s SIGSEGV)\<rparr>"
  using assms signals_differ
  by (simp add: deliver_def invoke_def set_segv_def sigaction_def Let_def)



lemma setup_lib_parent:
  "fork_ret \<noteq> 0 \<Longrightarrow> setup_lib fork_ret ppid clock s =
     Some ([], Return (s\<lparr>disp := (disp s)(IPC_SIG :=
       \<lparr>sa_handler = Lib_set_segv, sa_flags = {SA_RESTART, SA_RESETHAND}, sa_mask = {}\<rparr>)\<rparr>))"
  by (simp add: setup_lib_def sigaction_def)


lemma host_keeps_clear_idle: "host_keeps_clear idle_host"
  by (simp add: host_keeps_clear_def idle_host_def untouched_refl)


subsection \<open>The handshake happens once\<close>




subsection \<open>The saved handler is written once\<close>



subsection \<open>Faults after a handler that returns\<close>

lemma fault_delivery:
  assumes "status s = Running"
    and "disp s SIGSEGV = \<lparr>sa_handler = Lib_handle_segv, sa_flags = {}, sa_mask = {}\<rparr>"
  shows "deliver call SIGSEGV stack s = state_of (handle_segv call SIGSEGV stack s)"
  using assms by (simp add: deliver_def invoke_def Let_def)

lemma stays_armed:
  assumes host: "\<forall>x s. returns (call h x s)
        \<and> status (state_of (call h x s)) = status s
        \<and> disp (state_of (call h x s)) SIGSEGV = disp s SIGSEGV
        \<and> original_segv_handler (state_of (call h x s)) = original_segv_handler s"
    and "h \<noteq> SIG_IGN" "h \<noteq> SIG_DFL"
    and "status s = Running"
    and "disp s SIGSEGV = \<lparr>sa_handler = Lib_handle_segv, sa_flags = {}, sa_mask = {}\<rparr>"
    and "original_segv_handler s = h"
  shows "status (run call (map (Signal SIGSEGV) stacks) s) = Running
     \<and> disp (run call (map (Signal SIGSEGV) stacks) s) SIGSEGV
         = \<lparr>sa_handler = Lib_handle_segv, sa_flags = {}, sa_mask = {}\<rparr>
     \<and> original_segv_handler (run call (map (Signal SIGSEGV) stacks) s) = h"
  using assms(4-6)
proof (induction stacks arbitrary: s)
  case Nil
  then show ?case by simp
next
  case (Cons stack stacks)
  let ?s1 = "state_of (handle_segv idle_host SIGSEGV stack s)"
  let ?s' = "deliver call SIGSEGV stack s"
  have "?s' = state_of (handle_segv call SIGSEGV stack s)"
    using Cons.prems(1,2) by (rule fault_delivery)
  also have "handle_segv call SIGSEGV stack s = call h SIGSEGV ?s1"
    using handle_segv_delegates [of s call SIGSEGV stack] assms(2,3) Cons.prems(3) by simp
  finally have s': "?s' = state_of (call h SIGSEGV ?s1)" .
  have "status ?s1 = Running" "disp ?s1 = disp s" "original_segv_handler ?s1 = h"
    using Cons.prems assms(2,3) by (simp_all add: probe_status probe_kept)
  then have "status ?s' = Running"
    "disp ?s' SIGSEGV = \<lparr>sa_handler = Lib_handle_segv, sa_flags = {}, sa_mask = {}\<rparr>"
    "original_segv_handler ?s' = h"
    using host Cons.prems(2) by (simp_all add: s')
  from Cons.IH [OF this] show ?case
    by simp
qed

text \<open>
  C8, as the spec states it, fails. A host handler that returns and leaves the process
  running may still change the SIGSEGV disposition. When it installs itself again, the
  second fault goes straight to the host's handler: \<open>handle_segv\<close> is not started and
  nothing is written.
\<close>

theorem reinstalled_handler_counterexample:
  "original_segv_handler armed_proc = Host 0
   \<and> returns (reinstalling_host (Host 0) SIGSEGV armed_proc)
   \<and> status (deliver reinstalling_host SIGSEGV [1, 2, 3] armed_proc) = Running
   \<and> started (Signal SIGSEGV [4, 5]) (deliver reinstalling_host SIGSEGV [1, 2, 3] armed_proc)
       = [Host 0]
   \<and> stderr (deliver reinstalling_host SIGSEGV [4, 5]
         (deliver reinstalling_host SIGSEGV [1, 2, 3] armed_proc))
       = stderr (deliver reinstalling_host SIGSEGV [1, 2, 3] armed_proc)"
proof -
  let ?s = "deliver reinstalling_host SIGSEGV [1, 2, 3] armed_proc"
  have a: "status armed_proc = Running"
    "disp armed_proc SIGSEGV = \<lparr>sa_handler = Lib_handle_segv, sa_flags = {}, sa_mask = {}\<rparr>"
    by (simp_all add: armed_proc_status) (simp add: armed_proc_def set_segv_def sigaction_def)
  have "?s = state_of (handle_segv reinstalling_host SIGSEGV [1, 2, 3] armed_proc)"
    using a by (rule fault_delivery)
  also have "handle_segv reinstalling_host SIGSEGV [1, 2, 3] armed_proc =
      reinstalling_host (Host 0) SIGSEGV (state_of (handle_segv idle_host SIGSEGV [1, 2, 3] armed_proc))"
    using handle_segv_delegates [of armed_proc reinstalling_host SIGSEGV "[1, 2, 3]"]
    by (simp add: armed_proc_handler)
  finally have s: "?s = state_of (reinstalling_host (Host 0) SIGSEGV
      (state_of (handle_segv idle_host SIGSEGV [1, 2, 3] armed_proc)))" .
  have alive: "status ?s = Running"
    by (simp only: s)
      (simp add: reinstalling_host_def sigaction_def probe_status armed_proc_handler
        armed_proc_status)
  have again: "disp ?s SIGSEGV = \<lparr>sa_handler = Host 0, sa_flags = {}, sa_mask = {}\<rparr>"
    by (simp only: s) (simp add: reinstalling_host_def sigaction_def)
  have second: "started (Signal SIGSEGV [4, 5]) ?s = [Host 0]"
    using alive again by simp
  have "deliver reinstalling_host SIGSEGV [4, 5] ?s
      = state_of (reinstalling_host (Host 0) SIGSEGV ?s)"
    using alive again by (simp add: deliver_def invoke_def Let_def)
  then have silent: "stderr (deliver reinstalling_host SIGSEGV [4, 5] ?s) = stderr ?s"
    by (simp add: reinstalling_host_def sigaction_def)
  show ?thesis
    using alive second silent by (simp add: armed_proc_handler reinstalling_host_def)
qed

text \<open>
  C8, amended. Let the host's SIGSEGV handler \<open>h\<close> be a function that returns, leaves the
  process running and leaves the SIGSEGV disposition and the saved handler alone, and
  let \<open>set_segv\<close> arm the library over it. After any number of faults (one call stack
  each), the process is still running with \<open>handle_segv\<close> installed for SIGSEGV,
  without \<open>SA_RESETHAND\<close>, and \<open>h\<close> saved. The next fault starts \<open>handle_segv\<close>,
  which hands to \<open>h\<close> a process where the output has grown by the opening notice,
  one line for each of the first 64 frames of this fault's stack, and the two closing
  notices, and where the buffer starts with those frames: nothing of it depends on what
  earlier faults left in the buffer.
\<close>

theorem repeated_faults_fresh_backtrace:
  assumes "\<forall>x s. returns (call h x s)
        \<and> status (state_of (call h x s)) = status s
        \<and> disp (state_of (call h x s)) SIGSEGV = disp s SIGSEGV
        \<and> original_segv_handler (state_of (call h x s)) = original_segv_handler s"
    and "sa_handler (disp s0 SIGSEGV) = h" and "h \<noteq> SIG_IGN" and "h \<noteq> SIG_DFL"
    and "status s0 = Running"
  shows "\<exists>s s1. s = run call (map (Signal SIGSEGV) stacks) (set_segv y s0)
     \<and> status s = Running
     \<and> disp s SIGSEGV = \<lparr>sa_handler = Lib_handle_segv, sa_flags = {}, sa_mask = {}\<rparr>
     \<and> original_segv_handler s = h
     \<and> started (Signal SIGSEGV stack) s = [Lib_handle_segv]
     \<and> deliver call SIGSEGV stack s = state_of (call h SIGSEGV s1)
     \<and> stderr s1 = stderr s @ Text (''SIGSEGV received. Backtrace:'' @ newline)
          # map Frame (take TRACEBUFLEN stack)
          @ [Text ''End of backtrace. '', Text (''Calling original SIGSEGV handler.'' @ newline)]
     \<and> traces s1 = of_nat (min (length stack) TRACEBUFLEN)
     \<and> take (min (length stack) TRACEBUFLEN) (trace s1) = take TRACEBUFLEN stack"
proof -
  let ?s = "run call (map (Signal SIGSEGV) stacks) (set_segv y s0)"
  let ?s1 = "state_of (handle_segv idle_host SIGSEGV stack ?s)"
  have "status (set_segv y s0) = Running"
    "disp (set_segv y s0) SIGSEGV = \<lparr>sa_handler = Lib_handle_segv, sa_flags = {}, sa_mask = {}\<rparr>"
    "original_segv_handler (set_segv y s0) = h"
    using assms(2,5) by (simp_all add: set_segv_def sigaction_def)
  from stays_armed [where call = call and h = h and stacks = stacks, OF assms(1,3,4) this]
  have armed: "status ?s = Running"
    "disp ?s SIGSEGV = \<lparr>sa_handler = Lib_handle_segv, sa_flags = {}, sa_mask = {}\<rparr>"
    "original_segv_handler ?s = h"
    by simp_all
  have custom: "original_segv_handler ?s \<noteq> SIG_IGN" "original_segv_handler ?s \<noteq> SIG_DFL"
    using armed(3) assms(3,4) by simp_all
  have "deliver call SIGSEGV stack ?s = state_of (handle_segv call SIGSEGV stack ?s)"
    using armed(1,2) by (rule fault_delivery)
  also have "handle_segv call SIGSEGV stack ?s = call h SIGSEGV ?s1"
    using handle_segv_delegates [OF custom, of call SIGSEGV stack] armed(3) by simp
  finally have fault: "deliver call SIGSEGV stack ?s = state_of (call h SIGSEGV ?s1)" .
  have begun: "started (Signal SIGSEGV stack) ?s = [Lib_handle_segv]"
    using armed(1,2) by simp
  have out: "stderr ?s1 = stderr ?s @ Text (''SIGSEGV received. Backtrace:'' @ newline)
          # map Frame (take TRACEBUFLEN stack)
          @ [Text ''End of backtrace. '', Text (''Calling original SIGSEGV handler.'' @ newline)]"
    using custom
    by (simp add: handle_segv_unfold Let_def idle_host_def take_min_length)
  have buf: "traces ?s1 = of_nat (min (length stack) TRACEBUFLEN)"
    "take (min (length stack) TRACEBUFLEN) (trace ?s1) = take TRACEBUFLEN stack"
    by (simp_all add: probe_buffer min_def)
  show ?thesis
    using armed begun fault out buf by blast
qed

theorem repeated_faults_fresh_backtrace_witness:
  "sa_handler (disp hosted_proc SIGSEGV) = Host 0
   \<and> status hosted_proc = Running
   \<and> returns (idle_host (Host 0) SIGSEGV armed_proc)
   \<and> started (Signal SIGSEGV [7, 8, 9])
        (run idle_host [Signal SIGSEGV [1, 2, 3], Signal SIGSEGV [4, 5]] armed_proc)
       = [Lib_handle_segv]
   \<and> stderr (deliver idle_host SIGSEGV [7, 8, 9]
        (run idle_host [Signal SIGSEGV [1, 2, 3], Signal SIGSEGV [4, 5]] armed_proc))
       = stderr (run idle_host [Signal SIGSEGV [1, 2, 3], Signal SIGSEGV [4, 5]] armed_proc)
         @ [Text (''SIGSEGV received. Backtrace:'' @ newline), Frame 7, Frame 8, Frame 9,
            Text ''End of backtrace. '', Text (''Calling original SIGSEGV handler.'' @ newline)]"
proof -
  have host: "\<forall>x s. returns (idle_host (Host 0) x s)
        \<and> status (state_of (idle_host (Host 0) x s)) = status s
        \<and> disp (state_of (idle_host (Host 0) x s)) SIGSEGV = disp s SIGSEGV
        \<and> original_segv_handler (state_of (idle_host (Host 0) x s)) = original_segv_handler s"
    by (simp add: idle_host_def)
  have h: "sa_handler (disp hosted_proc SIGSEGV) = Host 0"
    by (simp add: hosted_proc_def)
  have r: "status hosted_proc = Running"
    by (simp add: hosted_proc_def fresh_proc_def)
  have c: "Host 0 \<noteq> SIG_IGN" "Host 0 \<noteq> SIG_DFL"
    by simp_all
  have ret: "returns (idle_host (Host 0) SIGSEGV armed_proc)"
    by (simp add: idle_host_def)
  obtain s s1 where "s = run idle_host (map (Signal SIGSEGV) [[1, 2, 3], [4, 5]]) (set_segv IPC_SIG hosted_proc)"
    and "started (Signal SIGSEGV [7, 8, 9]) s = [Lib_handle_segv]"
    and "deliver idle_host SIGSEGV [7, 8, 9] s = state_of (idle_host (Host 0) SIGSEGV s1)"
    and "stderr s1 = stderr s @ Text (''SIGSEGV received. Backtrace:'' @ newline)
          # map Frame (take TRACEBUFLEN [7, 8, 9])
          @ [Text ''End of backtrace. '', Text (''Calling original SIGSEGV handler.'' @ newline)]"
    using repeated_faults_fresh_backtrace
      [where call = idle_host and h = "Host 0" and ?s0.0 = hosted_proc and y = IPC_SIG
        and stacks = "[[1, 2, 3], [4, 5]]" and stack = "[7, 8, 9]", OF host h c r]
    by blast
  then show ?thesis
    using h r ret by (simp add: idle_host_def armed_proc_def TRACEBUFLEN_def)
qed

subsection \<open>When fork fails\<close>

text \<open>
  C9, as the spec states it, fails: \<open>setup\<close> treats a failed \<open>fork\<close> like the
  parent's side of a good one and installs the handshake handler. No watchdog will send
  the handshake signal, but when anyone else does, \<open>set_segv\<close> runs and the SIGSEGV
  disposition changes.
\<close>

theorem fork_failure_still_arms_counterexample:
  "setup_lib (- 1) 1 [] fresh_proc = Some ([], Return unwatched_proc)
   \<and> sa_handler (disp unwatched_proc SIGSEGV) = SIG_DFL
   \<and> sa_handler (disp (deliver idle_host IPC_SIG [] unwatched_proc) SIGSEGV) = Lib_handle_segv"
proof -
  have unwatched: "setup_lib (- 1) 1 [] fresh_proc = Some ([], Return unwatched_proc)"
    by (simp add: unwatched_proc_def setup_lib_parent)
  have u: "unwatched_proc = fresh_proc\<lparr>disp := (disp fresh_proc)(IPC_SIG :=
       \<lparr>sa_handler = Lib_set_segv, sa_flags = {SA_RESTART, SA_RESETHAND}, sa_mask = {}\<rparr>)\<rparr>"
    by (simp add: unwatched_proc_def setup_lib_parent)
  have before: "sa_handler (disp unwatched_proc SIGSEGV) = SIG_DFL"
    using signals_differ by (simp add: u fresh_proc_def)
  have "deliver idle_host IPC_SIG [] unwatched_proc =
      unwatched_proc\<lparr>disp := (disp unwatched_proc)
                (IPC_SIG := (disp unwatched_proc IPC_SIG)\<lparr>sa_handler := SIG_DFL\<rparr>,
                 SIGSEGV := \<lparr>sa_handler = Lib_handle_segv, sa_flags = {}, sa_mask = {}\<rparr>),
              original_segv_handler := sa_handler (disp unwatched_proc SIGSEGV)\<rparr>"
    by (rule handshake_delivery) (simp_all add: u fresh_proc_def)
  then have "sa_handler (disp (deliver idle_host IPC_SIG [] unwatched_proc) SIGSEGV) = Lib_handle_segv"
    by simp
  then show ?thesis
    using unwatched before by simp
qed

lemma dormant_forever:
  assumes "host_keeps_clear call"
    and "\<forall>sig. sig \<noteq> IPC_SIG \<longrightarrow>
           sa_handler (disp s sig) \<noteq> Lib_set_segv \<and> sa_handler (disp s sig) \<noteq> Lib_handle_segv"
    and "\<forall>stack. Signal IPC_SIG stack \<notin> set evs"
  shows "(\<forall>sig. sig \<noteq> IPC_SIG \<longrightarrow>
            sa_handler (disp (run call evs s) sig) \<noteq> Lib_set_segv
            \<and> sa_handler (disp (run call evs s) sig) \<noteq> Lib_handle_segv)
     \<and> Lib_set_segv \<notin> set (handlers_run call evs s)
     \<and> Lib_handle_segv \<notin> set (handlers_run call evs s)"
  using assms(2,3)
proof (induction evs arbitrary: s)
  case Nil
  then show ?case by simp
next
  case (Cons e evs)
  have quiet: "Lib_set_segv \<notin> set (started e s) \<and> Lib_handle_segv \<notin> set (started e s)"
  proof (rule ccontr)
    assume "\<not> ?thesis"
    then obtain h where "h \<in> set (started e s)" "h = Lib_set_segv \<or> h = Lib_handle_segv"
      by blast
    then obtain sig stack where "e = Signal sig stack" "sa_handler (disp s sig) = h"
      using started_cases by blast
    then show False
      using Cons.prems \<open>h = Lib_set_segv \<or> h = Lib_handle_segv\<close> by (metis list.set_intros(1))
  qed
  then have "started e s \<noteq> [Lib_set_segv]"
    by auto
  with assms(1) have "untouched s (step call e s)"
    by (rule untouched_step)
  then have next_ok: "\<forall>sig. sig \<noteq> IPC_SIG \<longrightarrow>
           sa_handler (disp (step call e s) sig) \<noteq> Lib_set_segv
           \<and> sa_handler (disp (step call e s) sig) \<noteq> Lib_handle_segv"
    using Cons.prems(1) by (metis untouched_def)
  have "\<forall>stack. Signal IPC_SIG stack \<notin> set evs"
    using Cons.prems(2) by simp
  from Cons.IH [OF next_ok this] show ?case
    using quiet by simp
qed

text \<open>
  C9, amended. When \<open>fork\<close> returns -1, \<open>setup\<close> returns without a watchdog,
  having written nothing and changed nothing but the disposition of the handshake
  signal, where \<open>set_segv\<close> is now installed. In a process where the library's
  handlers were not installed before, with a host that keeps clear of the library, and
  over any events among which the handshake signal is never delivered, the SIGSEGV
  handler never becomes \<open>handle_segv\<close> and neither of the library's handlers is ever
  started.
\<close>

theorem fork_failure_leaves_handshake_dormant:
  assumes "host_keeps_clear call"
    and "\<forall>sig. sa_handler (disp s0 sig) \<noteq> Lib_set_segv \<and> sa_handler (disp s0 sig) \<noteq> Lib_handle_segv"
    and "\<forall>stack. Signal IPC_SIG stack \<notin> set evs"
  shows "\<exists>s. setup_lib (- 1) ppid clock s0 = Some ([], Return s)
     \<and> stderr s = stderr s0 \<and> status s = status s0
     \<and> original_segv_handler s = original_segv_handler s0
     \<and> disp s SIGSEGV = disp s0 SIGSEGV
     \<and> sa_handler (disp s IPC_SIG) = Lib_set_segv
     \<and> sa_handler (disp (run call evs s) SIGSEGV) \<noteq> Lib_handle_segv
     \<and> Lib_set_segv \<notin> set (handlers_run call evs s)
     \<and> Lib_handle_segv \<notin> set (handlers_run call evs s)"
proof -
  let ?a = "\<lparr>sa_handler = Lib_set_segv, sa_flags = {SA_RESTART, SA_RESETHAND}, sa_mask = {}\<rparr>"
  let ?s = "s0\<lparr>disp := (disp s0)(IPC_SIG := ?a)\<rparr>"
  have failed: "(- 1 :: c_int) \<noteq> 0"
    by simp
  have inst: "setup_lib (- 1) ppid clock s0 = Some ([], Return ?s)"
    using failed by (rule setup_lib_parent)
  have "\<forall>sig. sig \<noteq> IPC_SIG \<longrightarrow>
           sa_handler (disp ?s sig) \<noteq> Lib_set_segv \<and> sa_handler (disp ?s sig) \<noteq> Lib_handle_segv"
    using assms(2) by simp
  from dormant_forever [OF assms(1) this assms(3)]
  have "sa_handler (disp (run call evs ?s) SIGSEGV) \<noteq> Lib_handle_segv"
    and "Lib_set_segv \<notin> set (handlers_run call evs ?s)"
    and "Lib_handle_segv \<notin> set (handlers_run call evs ?s)"
    using signals_differ by blast+
  moreover have "stderr ?s = stderr s0" "status ?s = status s0"
    "original_segv_handler ?s = original_segv_handler s0"
    "disp ?s SIGSEGV = disp s0 SIGSEGV" "sa_handler (disp ?s IPC_SIG) = Lib_set_segv"
    using signals_differ by simp_all
  ultimately show ?thesis
    using inst by blast
qed

theorem fork_failure_leaves_handshake_dormant_witness:
  "host_keeps_clear idle_host
   \<and> setup_lib (- 1) 1 [] fresh_proc = Some ([], Return unwatched_proc)
   \<and> stderr unwatched_proc = []
   \<and> status unwatched_proc = Running
   \<and> sa_handler (disp (run idle_host [HostRuns (Host 1) 0, Signal 10 [], Signal SIGSEGV [1, 2]]
        unwatched_proc) SIGSEGV) \<noteq> Lib_handle_segv
   \<and> Lib_handle_segv \<notin> set (handlers_run idle_host
        [HostRuns (Host 1) 0, Signal 10 [], Signal SIGSEGV [1, 2]] unwatched_proc)"
proof -
  have none: "\<forall>sig. sa_handler (disp fresh_proc sig) \<noteq> Lib_set_segv
      \<and> sa_handler (disp fresh_proc sig) \<noteq> Lib_handle_segv"
    by (simp add: fresh_proc_def)
  have quiet: "\<forall>stack. Signal IPC_SIG stack
      \<notin> set [HostRuns (Host 1) 0, Signal 10 [], Signal SIGSEGV [1, 2]]"
    by (simp add: IPC_SIG_def SIGUNUSED_def SIGSEGV_def)
  have unwatched: "setup_lib (- 1) 1 [] fresh_proc = Some ([], Return unwatched_proc)"
    by (simp add: unwatched_proc_def setup_lib_parent)
  obtain s where s: "setup_lib (- 1) 1 [] fresh_proc = Some ([], Return s)"
    and facts: "stderr s = stderr fresh_proc" "status s = status fresh_proc"
      "sa_handler (disp (run idle_host [HostRuns (Host 1) 0, Signal 10 [], Signal SIGSEGV [1, 2]] s)
         SIGSEGV) \<noteq> Lib_handle_segv"
      "Lib_handle_segv \<notin> set (handlers_run idle_host
         [HostRuns (Host 1) 0, Signal 10 [], Signal SIGSEGV [1, 2]] s)"
    using fork_failure_leaves_handshake_dormant [OF host_keeps_clear_idle none quiet, of 1 "[]"]
    by blast
  have same: "s = unwatched_proc"
    using s unwatched by simp
  show ?thesis
    using host_keeps_clear_idle unwatched facts unfolding same
    by (simp add: fresh_proc_def)
qed

end
